theory Spec2Isabelle
  imports Complex_Main "HOL-Library.AList"
begin

section \<open>The Problem model of problems/models.py\<close>

text \<open>
  A shallow embedding of the \<open>Problem\<close> model: its fields, the query set filters
  \<open>active\<close> and \<open>overdue\<close>, the \<open>save\<close> override with its audit loop and automatic
  timestamps, and the properties \<open>expected_end\<close> and \<open>active_state\<close>.

  Conventions of the model.
  \<^item> A user is identified by its primary key; two \<open>User\<close> instances compare equal in
    Python exactly when their keys do.
  \<^item> A \<open>datetime\<close> is a number of microseconds since the epoch, a \<open>timedelta\<close> a signed
    number of microseconds; adding a timedelta to a datetime is integer addition.
  \<^item> \<open>priority\<close> on an instance is a Python number, an \<open>int\<close> or a finite \<open>float\<close>; the
    \<open>FloatField\<close> column stores \<open>float(value)\<close> and the instance keeps the value it was
    given. NaN and the infinities, and an \<open>int\<close> too large for \<open>float()\<close>, are outside the
    model.
  \<^item> The database accepts every write: a constraint violation raised by the database
    layer, and a \<open>chief\<close> or \<open>executive\<close> key that names no user, are outside the model.
  \<^item> The clock \<open>now()\<close> is read once per operation and passed in as \<open>now\<close>.
  \<^item> The many-to-many fields \<open>advisors\<close> and \<open>tags\<close> live in tables of their own and
    are not touched by \<open>save\<close>; they are left out of the row.
\<close>

type_synonym user = nat
type_synonym datetime = int
type_synonym timedelta = int

text \<open>
  A Python number: an \<open>int\<close>, or a \<open>float\<close> given by the real number it denotes. Python
  compares an \<open>int\<close> and a \<open>float\<close> by their exact values.
\<close>

datatype pynum = PyInt int | PyFloat real

definition num_value :: "pynum \<Rightarrow> real" where
  "num_value x = (case x of PyInt n \<Rightarrow> of_int n | PyFloat v \<Rightarrow> v)"

text \<open>
  \<open>float(n)\<close> for an \<open>int\<close>: the nearest double, ties to the even significand. A double
  has a significand of 53 bits, so every \<open>int\<close> of at most 53 bits is exact; a longer one
  loses its low bits, rounded.
\<close>

fun bit_length :: "nat \<Rightarrow> nat" where
  "bit_length n = (if n = 0 then 0 else Suc (bit_length (n div 2)))"

declare bit_length.simps [simp del]

definition round_53 :: "nat \<Rightarrow> nat" where
  "round_53 m =
     (if bit_length m \<le> 53 then m
      else (let e = bit_length m - 53;
                q = m div 2 ^ e;
                r = m mod 2 ^ e;
                h = 2 ^ (e - 1)
            in (if r > h \<or> (r = h \<and> odd q) then q + 1 else q) * 2 ^ e))"

definition py_float :: "pynum \<Rightarrow> pynum" where
  "py_float x =
     (case x of
        PyFloat v \<Rightarrow> PyFloat v
      | PyInt n \<Rightarrow>
          PyFloat (if n < 0 then - real (round_53 (nat (- n))) else real (round_53 (nat n))))"

record problem =
  pk :: "nat option"
  title :: string
  description :: "string option"
  scale :: string
  parent :: "nat option"
  chief :: "user option"
  executive :: "user option"
  status :: string
  priority :: pynum
  etd :: "timedelta option"
  created_by :: "user option"
  updated_by :: "user option"
  created_at :: "datetime option"
  updated_at :: "datetime option"
  started_at :: "datetime option"
  closed_at :: "datetime option"

text \<open>
  \<open>Problem(title=..., scale=...)\<close>: an unsaved instance with the field defaults of the
  model (\<open>status\<close> defaults to \<open>"new"\<close>, \<open>priority\<close> to 0, every nullable field to
  \<open>None\<close>).
\<close>

definition Problem :: "string \<Rightarrow> string \<Rightarrow> problem" where
  "Problem t s =
     \<lparr>pk = None, title = t, description = None, scale = s, parent = None,
      chief = None, executive = None, status = ''new'', priority = PyInt 0, etd = None,
      created_by = None, updated_by = None, created_at = None, updated_at = None,
      started_at = None, closed_at = None\<rparr>"

subsection \<open>Attribute values and \<open>getattr\<close>\<close>

text \<open>
  The values \<open>getattr\<close> can return for a model field. \<open>VNone\<close> is Python's \<open>None\<close>;
  \<open>VNum\<close> is a number, \<open>int\<close> or \<open>float\<close>, given by its exact value, so that equality of
  \<open>val\<close> is Python's \<open>==\<close>; values of different constructors are unequal, as in Python.
\<close>

datatype val =
    VNone
  | VStr string
  | VNum real
  | VInt nat
  | VUser user
  | VDateTime datetime
  | VTimeDelta timedelta

datatype error =
    DoesNotExist
  | AttributeError string

definition opt_val :: "('a \<Rightarrow> val) \<Rightarrow> 'a option \<Rightarrow> val" where
  "opt_val c x = (case x of None \<Rightarrow> VNone | Some v \<Rightarrow> c v)"

text \<open>
  \<open>getattr(instance, name)\<close> for the model fields of the row (and \<open>pk\<close>); any other name is outside
  the model and answered with \<open>AttributeError\<close>.
\<close>

definition getattr :: "problem \<Rightarrow> string \<Rightarrow> error + val" where
  "getattr p f =
     (if f = ''title'' then Inr (VStr (title p))
      else if f = ''description'' then Inr (opt_val VStr (description p))
      else if f = ''status'' then Inr (VStr (status p))
      else if f = ''priority'' then Inr (VNum (num_value (priority p)))
      else if f = ''chief'' then Inr (opt_val VUser (chief p))
      else if f = ''executive'' then Inr (opt_val VUser (executive p))
      else if f = ''etd'' then Inr (opt_val VTimeDelta (etd p))
      else if f = ''scale'' then Inr (VStr (scale p))
      else if f = ''started_at'' then Inr (opt_val VDateTime (started_at p))
      else if f = ''closed_at'' then Inr (opt_val VDateTime (closed_at p))
      else if f = ''pk'' \<or> f = ''id'' then Inr (opt_val VInt (pk p))
      else if f = ''parent_id'' then Inr (opt_val VInt (parent p))
      else if f = ''created_by'' then Inr (opt_val VUser (created_by p))
      else if f = ''updated_by'' then Inr (opt_val VUser (updated_by p))
      else if f = ''created_at'' then Inr (opt_val VDateTime (created_at p))
      else if f = ''updated_at'' then Inr (opt_val VDateTime (updated_at p))
      else Inl (AttributeError f))"

subsection \<open>The store: the problem table and the history table\<close>

text \<open>
  One \<open>ProblemHistory\<close> row. \<open>problem_id\<close> is the foreign key to the problem,
  \<open>old_value\<close> and \<open>new_value\<close> are the values handed to
  \<open>ProblemHistory.objects.create\<close> (the text column stores their \<open>str()\<close>),
  \<open>changed_at\<close> is filled by the field default \<open>now\<close>.
\<close>

record problem_history =
  problem_id :: nat
  field :: string
  old_value :: val
  new_value :: val
  changed_by :: "user option"
  changed_at :: datetime

text \<open>
  The database: the problem table as an association list from primary key to row, and
  the history table in insertion order.
\<close>

record store =
  rows :: "(nat \<times> problem) list"
  history :: "problem_history list"

text \<open>\<open>Problem.objects.get(pk=k)\<close>: the row, or \<open>DoesNotExist\<close>.\<close>

definition objects_get :: "nat \<Rightarrow> store \<Rightarrow> error + problem" where
  "objects_get k st =
     (case map_of (rows st) k of None \<Rightarrow> Inl DoesNotExist | Some p \<Rightarrow> Inr p)"

text \<open>\<open>ProblemHistory.objects.create(...)\<close>: one row appended to the history table.\<close>

definition history_create ::
  "nat \<Rightarrow> string \<Rightarrow> val \<Rightarrow> val \<Rightarrow> user option \<Rightarrow> datetime \<Rightarrow> store \<Rightarrow> store" where
  "history_create k f ov nv user now st =
     st\<lparr>history := history st @
        [\<lparr>problem_id = k, field = f, old_value = ov, new_value = nv,
          changed_by = user, changed_at = now\<rparr>]\<rparr>"

text \<open>
  The framework's \<open>Model.save\<close> (called as \<open>super().save()\<close>): with no primary key the
  row is inserted under a fresh key; with a primary key the row is updated, or inserted
  under that key when no such row exists. \<open>created_at\<close> (\<open>auto_now_add\<close>) is set on
  insert, \<open>updated_at\<close> (\<open>auto_now\<close>) on every save. The row written holds the column
  values of the instance (\<open>column_values\<close>: the float column takes \<open>float(priority)\<close>);
  the instance itself keeps its attribute values and is returned.
\<close>

definition column_values :: "problem \<Rightarrow> problem" where
  "column_values self = self\<lparr>priority := py_float (priority self)\<rparr>"

definition next_pk :: "store \<Rightarrow> nat" where
  "next_pk st = Suc (foldr max (map fst (rows st)) 0)"

definition super_save :: "datetime \<Rightarrow> problem \<Rightarrow> store \<Rightarrow> problem \<times> store" where
  "super_save now self st =
     (case pk self of
        None \<Rightarrow>
          (let k = next_pk st;
               p = self\<lparr>pk := Some k, created_at := Some now, updated_at := Some now\<rparr>
           in (p, st\<lparr>rows := AList.update k (column_values p) (rows st)\<rparr>))
      | Some k \<Rightarrow>
          (case map_of (rows st) k of
             Some old \<Rightarrow>
               (let p = self\<lparr>updated_at := Some now\<rparr>
                in (p, st\<lparr>rows := AList.update k (column_values p) (rows st)\<rparr>))
           | None \<Rightarrow>
               (let p = self\<lparr>created_at := Some now, updated_at := Some now\<rparr>
                in (p, st\<lparr>rows := AList.update k (column_values p) (rows st)\<rparr>))))"

subsection \<open>\<open>Problem.save\<close>\<close>

definition track_fields :: "string list" where
  "track_fields =
     [''title'', ''description'', ''status'', ''priority'', ''chief'', ''executive'',
      ''etd'', ''scale'', ''started_at'', ''closed_at'']"

text \<open>
  The loop \<open>for field in track_fields\<close>: each field whose old and new values are unequal
  (\<open>old_value != new_value\<close>) gets one history row, created at once, in the order of the
  list. An exception leaves the rows created so far in the store.
\<close>

fun history_loop ::
  "string list \<Rightarrow> nat \<Rightarrow> problem \<Rightarrow> problem \<Rightarrow> user option \<Rightarrow> datetime \<Rightarrow> store
     \<Rightarrow> (error + unit) \<times> store" where
  "history_loop [] k old self user now st = (Inr (), st)"
| "history_loop (f # fs) k old self user now st =
     (case getattr old f of
        Inl e \<Rightarrow> (Inl e, st)
      | Inr old_v \<Rightarrow>
          (case getattr self f of
             Inl e \<Rightarrow> (Inl e, st)
           | Inr new_v \<Rightarrow>
               (if old_v \<noteq> new_v
                then history_loop fs k old self user now
                       (history_create k f old_v new_v user now st)
                else history_loop fs k old self user now st)))"

text \<open>
  The automatic timestamps at the end of \<open>save\<close>: \<open>started_at\<close> when the status is
  \<open>"engaged"\<close> and the field is \<open>None\<close>, \<open>closed_at\<close> when the status is \<open>"done"\<close> or
  \<open>"cancelled"\<close> and the field is \<open>None\<close>.
\<close>

definition auto_timestamp :: "datetime \<Rightarrow> problem \<Rightarrow> problem" where
  "auto_timestamp now self =
     (let self1 = (if status self = ''engaged'' \<and> started_at self = None
                   then self\<lparr>started_at := Some now\<rparr> else self);
          self2 = (if status self1 \<in> set [''done'', ''cancelled''] \<and> closed_at self1 = None
                   then self1\<lparr>closed_at := Some now\<rparr> else self1)
      in self2)"

text \<open>
  \<open>save(user=...)\<close>. \<open>if self.pk\<close> is Python truthiness: the update branch is taken
  when the key is set and not 0. \<open>if user\<close> holds exactly when a user is given (a model
  instance is always truthy). The result is the exception or the instance as saved,
  together with the store as the call leaves it.
\<close>

definition save ::
  "user option \<Rightarrow> datetime \<Rightarrow> problem \<Rightarrow> store \<Rightarrow> (error + problem) \<times> store" where
  "save user now self st =
     (case (case pk self of None \<Rightarrow> None | Some k \<Rightarrow> if k = 0 then None else Some k) of
        Some k \<Rightarrow>
          (case objects_get k st of
             Inl e \<Rightarrow> (Inl e, st)
           | Inr old \<Rightarrow>
               (case history_loop track_fields k old self user now st of
                  (Inl e, st1) \<Rightarrow> (Inl e, st1)
                | (Inr u, st1) \<Rightarrow>
                    (let self1 = (if user \<noteq> None then self\<lparr>updated_by := user\<rparr> else self)
                     in case super_save now (auto_timestamp now self1) st1 of
                          (p, st2) \<Rightarrow> (Inr p, st2))))
      | None \<Rightarrow>
          (let self1 = (if user \<noteq> None
                        then self\<lparr>created_by := user, updated_by := user\<rparr> else self)
           in case super_save now (auto_timestamp now self1) st of
                (p, st2) \<Rightarrow> (Inr p, st2)))"

subsection \<open>Query set filters\<close>

text \<open>A query set is the list of rows it selects; a filter keeps the rows that match.\<close>

definition active :: "problem list \<Rightarrow> problem list" where
  "active qs = filter (\<lambda>p. status p \<in> set [''engaged'', ''blocked'']) qs"

text \<open>
  The annotation \<open>deadline = F("started_at") + F("etd")\<close>, computed by the database:
  it is NULL when an operand is NULL.
\<close>

definition deadline :: "problem \<Rightarrow> datetime option" where
  "deadline p =
     (case started_at p of
        None \<Rightarrow> None
      | Some s \<Rightarrow> (case etd p of None \<Rightarrow> None | Some d \<Rightarrow> Some (s + d)))"

definition overdue :: "datetime \<Rightarrow> problem list \<Rightarrow> problem list" where
  "overdue now qs =
     filter (\<lambda>p. case deadline p of None \<Rightarrow> False | Some d \<Rightarrow> d < now)
       (filter (\<lambda>p. etd p \<noteq> None \<and> started_at p \<noteq> None \<and>
                     status p \<in> set [''new'', ''engaged'', ''blocked'']) qs)"

subsection \<open>Properties\<close>

text \<open>
  \<open>if self.created_at and self.etd\<close> is Python truthiness: a datetime is always
  truthy, a timedelta is falsy exactly when it is the zero duration.
\<close>

definition timedelta_bool :: "timedelta \<Rightarrow> bool" where
  "timedelta_bool d = (d \<noteq> 0)"

definition expected_end :: "problem \<Rightarrow> datetime option" where
  "expected_end self =
     (case created_at self of
        None \<Rightarrow> None
      | Some c \<Rightarrow>
          (case etd self of
             None \<Rightarrow> None
           | Some d \<Rightarrow> if timedelta_bool d then Some (c + d) else None))"

definition active_state :: "problem \<Rightarrow> string" where
  "active_state self =
     (if status self = ''new'' then ''new''
      else if status self \<in> set [''engaged'', ''blocked''] then ''active''
      else ''inactive'')"

subsection \<open>Sequences of saves\<close>

text \<open>
  A sequence of \<open>save\<close> calls against the same database, each with its actor, its clock
  reading and the instance being saved; the first exception ends the sequence.
\<close>

fun save_all :: "(user option \<times> datetime \<times> problem) list \<Rightarrow> store \<Rightarrow> error + store" where
  "save_all [] st = Inr st"
| "save_all ((user, now, self) # rest) st =
     (case save user now self st of
        (Inl e, st') \<Rightarrow> Inl e
      | (Inr p, st') \<Rightarrow> save_all rest st')"

subsection \<open>Sample rows\<close>

text \<open>
  A persisted task with key 1, created at time 10, in status \<open>"new"\<close>; the same task
  engaged since time 5; and the databases that hold just one of them. \<open>big\<close> is the
  first task loaded and given the \<open>int\<close> priority \<open>2**53 + 1\<close>, which no double holds;
  \<open>big_saved\<close> is that instance after \<open>save(user=7)\<close> at time 100.
\<close>

definition row1 :: problem where
  "row1 = (Problem ''t'' ''task'')
            \<lparr>pk := Some 1, priority := PyFloat 0, created_at := Some 10, updated_at := Some 10\<rparr>"

definition store1 :: store where
  "store1 = \<lparr>rows = [(1, row1)], history = []\<rparr>"

definition row_engaged :: problem where
  "row_engaged = row1\<lparr>status := ''engaged'', started_at := Some 5\<rparr>"

definition store_engaged :: store where
  "store_engaged = \<lparr>rows = [(1, row_engaged)], history = []\<rparr>"



section \<open>Properties of the model\<close>

subsection \<open>The audit loop\<close>

text \<open>
  Every name of \<open>track_fields\<close> is a model field, so the loop never raises; the names
  are pairwise distinct.
\<close>

lemma getattr_tracked:
  "f \<in> set track_fields \<Longrightarrow> \<exists>v. getattr p f = Inr v"
  by (auto simp: track_fields_def getattr_def)

lemma distinct_track_fields: "distinct track_fields"
  by (simp add: track_fields_def)

text \<open>
  What the loop leaves behind: the history table grows by one row per listed field whose
  old and new values are unequal, in list order, each row holding the two values.
\<close>

lemma history_loop_records:
  "set fs \<subseteq> set track_fields \<Longrightarrow>
   \<exists>recs. history_loop fs k old self user now st = (Inr (), st\<lparr>history := history st @ recs\<rparr>)
     \<and> map field recs = filter (\<lambda>f. getattr old f \<noteq> getattr self f) fs
     \<and> (\<forall>r\<in>set recs. getattr old (field r) = Inr (old_value r)
           \<and> getattr self (field r) = Inr (new_value r)
           \<and> problem_id r = k \<and> changed_by r = user \<and> changed_at r = now)"
proof (induction fs arbitrary: st)
  case Nil
  show ?case by simp
next
  case (Cons f fs)
  from Cons.prems have f: "f \<in> set track_fields" and fs: "set fs \<subseteq> set track_fields" by auto
  from getattr_tracked [OF f] obtain ov where ov: "getattr old f = Inr ov" by blast
  from getattr_tracked [OF f] obtain nv where nv: "getattr self f = Inr nv" by blast
  show ?case
  proof (cases "ov = nv")
    case True
    with Cons.IH [OF fs, of st] ov nv show ?thesis by simp
  next
    case False
    let ?r = "\<lparr>problem_id = k, field = f, old_value = ov, new_value = nv,
          changed_by = user, changed_at = now\<rparr>"
    let ?st = "history_create k f ov nv user now st"
    from Cons.IH [OF fs, of ?st] obtain recs where
      r1: "history_loop fs k old self user now ?st = (Inr (), ?st\<lparr>history := history ?st @ recs\<rparr>)"
      and r2: "map field recs = filter (\<lambda>f. getattr old f \<noteq> getattr self f) fs"
      and r3: "\<forall>r\<in>set recs. getattr old (field r) = Inr (old_value r)
           \<and> getattr self (field r) = Inr (new_value r)
           \<and> problem_id r = k \<and> changed_by r = user \<and> changed_at r = now"
      by blast
    have "history_loop (f # fs) k old self user now st = (Inr (), st\<lparr>history := history st @ (?r # recs)\<rparr>)"
      using r1 ov nv False by (simp add: history_create_def)
    moreover have "map field (?r # recs) = filter (\<lambda>f. getattr old f \<noteq> getattr self f) (f # fs)"
      using r2 ov nv False by simp
    moreover have "\<forall>r\<in>set (?r # recs). getattr old (field r) = Inr (old_value r)
           \<and> getattr self (field r) = Inr (new_value r)
           \<and> problem_id r = k \<and> changed_by r = user \<and> changed_at r = now"
      using r3 ov nv by simp
    ultimately show ?thesis by blast
  qed
qed

subsection \<open>The framework save\<close>

lemma column_values_fields [simp]:
  "pk (column_values p) = pk p"
  "title (column_values p) = title p"
  "description (column_values p) = description p"
  "scale (column_values p) = scale p"
  "chief (column_values p) = chief p"
  "executive (column_values p) = executive p"
  "status (column_values p) = status p"
  "etd (column_values p) = etd p"
  "created_by (column_values p) = created_by p"
  "updated_by (column_values p) = updated_by p"
  "started_at (column_values p) = started_at p"
  "closed_at (column_values p) = closed_at p"
  "priority (column_values p) = py_float (priority p)"
  by (simp_all add: column_values_def)


lemma super_save_row:
  "super_save now p st = (p', st') \<Longrightarrow>
     \<exists>k. pk p' = Some k \<and> map_of (rows st') k = Some (column_values p')
         \<and> (pk p \<noteq> None \<longrightarrow> pk p' = pk p)"
  by (auto simp: super_save_def Let_def update_conv' split: option.splits)

lemma super_save_fields:
  "super_save now p st = (p', st') \<Longrightarrow>
     started_at p' = started_at p \<and> closed_at p' = closed_at p \<and> status p' = status p
     \<and> created_by p' = created_by p \<and> updated_by p' = updated_by p
     \<and> title p' = title p \<and> description p' = description p \<and> priority p' = priority p
     \<and> chief p' = chief p \<and> executive p' = executive p \<and> etd p' = etd p \<and> scale p' = scale p"
  by (auto simp: super_save_def Let_def split: option.splits)

subsection \<open>The two branches of \<open>save\<close>\<close>

lemma auto_timestamp_fields:
  "started_at (auto_timestamp now p) =
     (if status p = ''engaged'' \<and> started_at p = None then Some now else started_at p)"
  "closed_at (auto_timestamp now p) =
     (if (status p = ''done'' \<or> status p = ''cancelled'') \<and> closed_at p = None
      then Some now else closed_at p)"
  "status (auto_timestamp now p) = status p"
  "pk (auto_timestamp now p) = pk p"
  "created_by (auto_timestamp now p) = created_by p"
  "updated_by (auto_timestamp now p) = updated_by p"
  "priority (auto_timestamp now p) = priority p"
  by (simp_all add: auto_timestamp_def Let_def)

lemma save_update:
  assumes "pk self = Some k" and "k \<noteq> 0" and "map_of (rows st) k = Some old"
  shows "\<exists>recs. save user now self st =
           (case super_save now
                   (auto_timestamp now (if user \<noteq> None then self\<lparr>updated_by := user\<rparr> else self))
                   (st\<lparr>history := history st @ recs\<rparr>)
            of (p, st2) \<Rightarrow> (Inr p, st2))
         \<and> map field recs = filter (\<lambda>f. getattr old f \<noteq> getattr self f) track_fields
         \<and> (\<forall>r\<in>set recs. getattr old (field r) = Inr (old_value r)
               \<and> getattr self (field r) = Inr (new_value r)
               \<and> problem_id r = k \<and> changed_by r = user \<and> changed_at r = now)"
proof -
  from history_loop_records [of track_fields k old self user now st]
  obtain recs where
    r1: "history_loop track_fields k old self user now st = (Inr (), st\<lparr>history := history st @ recs\<rparr>)"
    and r2: "map field recs = filter (\<lambda>f. getattr old f \<noteq> getattr self f) track_fields"
    and r3: "\<forall>r\<in>set recs. getattr old (field r) = Inr (old_value r)
               \<and> getattr self (field r) = Inr (new_value r)
               \<and> problem_id r = k \<and> changed_by r = user \<and> changed_at r = now"
    by blast
  have "save user now self st =
           (case super_save now
                   (auto_timestamp now (if user \<noteq> None then self\<lparr>updated_by := user\<rparr> else self))
                   (st\<lparr>history := history st @ recs\<rparr>)
            of (p, st2) \<Rightarrow> (Inr p, st2))"
    using assms r1 by (simp add: save_def objects_get_def Let_def)
  with r2 r3 show ?thesis by blast
qed

lemma save_create:
  assumes "pk self = None \<or> pk self = Some 0"
  shows "save user now self st =
           (case super_save now
                   (auto_timestamp now
                      (if user \<noteq> None then self\<lparr>created_by := user, updated_by := user\<rparr> else self)) st
            of (p, st2) \<Rightarrow> (Inr p, st2))"
  using assms by (auto simp: save_def Let_def)

lemma save_finish:
  assumes "super_save now (auto_timestamp now s1) stx = (p, st')"
  shows "(\<exists>k. pk p = Some k \<and> map_of (rows st') k = Some (column_values p))
       \<and> priority p = priority s1
       \<and> started_at p =
           (if status s1 = ''engaged'' \<and> started_at s1 = None then Some now else started_at s1)
       \<and> closed_at p =
           (if (status s1 = ''done'' \<or> status s1 = ''cancelled'') \<and> closed_at s1 = None
            then Some now else closed_at s1)
       \<and> status p = status s1
       \<and> updated_by p = updated_by s1
       \<and> created_by p = created_by s1
       \<and> (pk s1 \<noteq> None \<longrightarrow> pk p = pk s1)"
proof -
  from super_save_row [OF assms] obtain k where
    k: "pk p = Some k" "map_of (rows st') k = Some (column_values p)"
    and pk: "pk (auto_timestamp now s1) \<noteq> None \<longrightarrow> pk p = pk (auto_timestamp now s1)"
    by blast
  from k have a: "\<exists>k. pk p = Some k \<and> map_of (rows st') k = Some (column_values p)" by blast
  from pk have b: "pk s1 \<noteq> None \<longrightarrow> pk p = pk s1" by (simp add: auto_timestamp_fields)
  from super_save_fields [OF assms] have
    c: "priority p = priority s1" "status p = status s1" "updated_by p = updated_by s1"
       "created_by p = created_by s1"
    and d: "started_at p =
           (if status s1 = ''engaged'' \<and> started_at s1 = None then Some now else started_at s1)"
    and e: "closed_at p =
           (if (status s1 = ''done'' \<or> status s1 = ''cancelled'') \<and> closed_at s1 = None
            then Some now else closed_at s1)"
    by (simp_all add: auto_timestamp_fields)
  from a b c d e show ?thesis by blast
qed

text \<open>
  What a successful \<open>save\<close> returns: the column values of the instance are stored
  under its key, the two timestamps follow the automatic rule, and the actor stamps
  follow \<open>if user\<close>.
\<close>

lemma save_result:
  assumes "save user now self st = (Inr p, st')"
  shows "(\<exists>k. pk p = Some k \<and> map_of (rows st') k = Some (column_values p))
       \<and> priority p = priority self
       \<and> started_at p =
           (if status self = ''engaged'' \<and> started_at self = None then Some now else started_at self)
       \<and> closed_at p =
           (if (status self = ''done'' \<or> status self = ''cancelled'') \<and> closed_at self = None
            then Some now else closed_at self)
       \<and> status p = status self
       \<and> updated_by p = (if user \<noteq> None then user else updated_by self)
       \<and> (user = None \<longrightarrow> created_by p = created_by self)
       \<and> (pk self \<noteq> None \<longrightarrow> pk p = pk self)"
proof (cases "pk self = None \<or> pk self = Some 0")
  case True
  let ?s1 = "if user \<noteq> None then self\<lparr>created_by := user, updated_by := user\<rparr> else self"
  obtain q st2 where q: "super_save now (auto_timestamp now ?s1) st = (q, st2)"
    by (cases "super_save now (auto_timestamp now ?s1) st") blast
  from save_create [OF True, of user now st] assms q
  have "q = p \<and> st2 = st'"
    by (simp del: not_None_eq split del: if_split)
  with q have ss: "super_save now (auto_timestamp now ?s1) st = (p, st')" by simp
  show ?thesis
  proof (cases user)
    case None
    with save_finish [OF ss] show ?thesis by simp
  next
    case (Some u)
    with save_finish [OF ss] show ?thesis by simp
  qed
next
  case False
  then obtain k where k: "pk self = Some k" "k \<noteq> 0" by auto
  show ?thesis
  proof (cases "map_of (rows st) k")
    case None
    with k assms show ?thesis by (simp add: save_def objects_get_def)
  next
    case (Some old)
    let ?s1 = "if user \<noteq> None then self\<lparr>updated_by := user\<rparr> else self"
    from save_update [OF k Some, of user now] obtain recs where
      sv: "save user now self st =
         (case super_save now (auto_timestamp now ?s1) (st\<lparr>history := history st @ recs\<rparr>)
          of (p, st2) \<Rightarrow> (Inr p, st2))"
      by blast
    obtain q st2 where
      q: "super_save now (auto_timestamp now ?s1) (st\<lparr>history := history st @ recs\<rparr>) = (q, st2)"
      by (cases "super_save now (auto_timestamp now ?s1) (st\<lparr>history := history st @ recs\<rparr>)") blast
    from sv assms q have "q = p \<and> st2 = st'"
      by (simp del: not_None_eq split del: if_split)
    with q have
      ss: "super_save now (auto_timestamp now ?s1) (st\<lparr>history := history st @ recs\<rparr>) = (p, st')"
      by simp
    show ?thesis
    proof (cases user)
      case None
      with save_finish [OF ss] show ?thesis by simp
    next
      case (Some u)
      with save_finish [OF ss] show ?thesis by simp
    qed
  qed
qed

lemma save_existing_row:
  assumes "pk self = Some k" and "k \<noteq> 0" and "map_of (rows st) k = Some old"
  shows "\<exists>p st'. save user now self st = (Inr p, st')
           \<and> map_of (rows st') k = Some (column_values p)"
proof -
  from save_update [OF assms, of user now] obtain recs where
    sv: "save user now self st =
         (case super_save now
                 (auto_timestamp now (if user \<noteq> None then self\<lparr>updated_by := user\<rparr> else self))
                 (st\<lparr>history := history st @ recs\<rparr>) of (p, st2) \<Rightarrow> (Inr p, st2))"
    by blast
  obtain p st' where s: "save user now self st = (Inr p, st')"
    using sv by (simp split: prod.splits)
  from save_result [OF s] assms(1) have "map_of (rows st') k = Some (column_values p)" by auto
  with s show ?thesis by blast
qed



section \<open>The claims\<close>

text \<open>
  C1. Claim: whenever the automatic timestamp rule fires in an update, the change to
  \<open>started_at\<close> / \<open>closed_at\<close> is among the history rows of that update; updating a
  problem from \<open>new\<close> to \<open>engaged\<close> with \<open>started_at\<close> null gives a \<open>status\<close> row and
  a \<open>started_at\<close> row.

  The code diffs before it applies the rule. Saving \<open>row1\<close> with the status changed to
  \<open>engaged\<close> writes the single history row \<open>status\<close>, while the stored \<open>started_at\<close>
  goes from \<open>None\<close> to the clock reading 100.
\<close>

theorem auto_set_started_at_not_logged:
  "map field (history (snd (save (Some 7) 100 (row1\<lparr>status := ''engaged''\<rparr>) store1))) = [''status'']
   \<and> map_option started_at (map_of (rows (snd (save (Some 7) 100 (row1\<lparr>status := ''engaged''\<rparr>) store1))) 1)
       = Some (Some 100)
   \<and> map_option started_at (map_of (rows store1) 1) = Some None"
  by (simp add: save_def objects_get_def track_fields_def getattr_def opt_val_def
  history_create_def auto_timestamp_def super_save_def column_values_def py_float_def
    num_value_def Problem_def
  row1_def store1_def Let_def)

text \<open>
  C2. Claim: an update emits exactly one history row per tracked field whose old and new
  values differ. The new values of an update are those it persists, and the rule for
  the automatic timestamps is part of the update; but the loop compares the stored row
  with the instance before that rule has run. Closing the engaged problem at time 200
  changes \<open>status\<close> and \<open>closed_at\<close> in the stored row, and the only history row written
  is \<open>status\<close>: the row for \<open>closed_at\<close> is missing. This is the defect of C1, seen on
  \<open>closed_at\<close>.
\<close>

theorem closed_at_change_missing_from_history:
  "map_of (rows store_engaged) 1 = Some row_engaged
   \<and> map_option (\<lambda>new. filter (\<lambda>f. getattr row_engaged f \<noteq> getattr new f) track_fields)
        (map_of (rows (snd (save (Some 7) 200 (row_engaged\<lparr>status := ''done''\<rparr>) store_engaged))) 1)
       = Some [''status'', ''closed_at'']
   \<and> map field (history (snd (save (Some 7) 200 (row_engaged\<lparr>status := ''done''\<rparr>) store_engaged)))
       = [''status'']"
  by (simp add: save_def objects_get_def track_fields_def getattr_def opt_val_def
    history_create_def auto_timestamp_def super_save_def column_values_def py_float_def
    num_value_def Problem_def row1_def store_engaged_def row_engaged_def Let_def)

text \<open>
  C3. On create and on update alike (any \<open>self\<close>, whichever branch \<open>save\<close> takes), the
  instance that \<open>save\<close> returns, and the row it stores (the column values of that
  instance), have \<open>started_at = now\<close> exactly when the status handed in
  is \<open>engaged\<close> and \<open>started_at\<close> was \<open>None\<close>, and its \<open>started_at\<close> unchanged otherwise;
  \<open>closed_at = now\<close> exactly when the status is \<open>done\<close> or \<open>cancelled\<close> and \<open>closed_at\<close>
  was \<open>None\<close>, and unchanged otherwise. A field that is set is therefore never cleared
  or overwritten by the rule, whatever the status.
\<close>

theorem auto_timestamp_rule:
  assumes "save user now self st = (Inr p, st')"
  shows "started_at p =
           (if status self = ''engaged'' \<and> started_at self = None then Some now
            else started_at self)
       \<and> closed_at p =
           (if (status self = ''done'' \<or> status self = ''cancelled'') \<and> closed_at self = None
            then Some now else closed_at self)
       \<and> (\<exists>k. pk p = Some k \<and> map_of (rows st') k = Some (column_values p))
       \<and> started_at (column_values p) = started_at p
       \<and> closed_at (column_values p) = closed_at p
       \<and> (started_at self \<noteq> None \<longrightarrow> started_at p = started_at self)
       \<and> (closed_at self \<noteq> None \<longrightarrow> closed_at p = closed_at self)"
  using save_result [OF assms] by simp

text \<open>
  Witness for C3: on the update branch, closing the engaged problem at time 200 sets
  \<open>closed_at\<close> to 200 and keeps \<open>started_at = 5\<close>; on the create branch, a new problem
  saved as \<open>engaged\<close> at time 50 gets \<open>started_at = 50\<close> and no \<open>closed_at\<close>.
\<close>

theorem auto_timestamp_rule_witness:
  "(\<exists>p st'. save (Some 7) 200 (row_engaged\<lparr>status := ''done''\<rparr>) store_engaged = (Inr p, st')
     \<and> started_at p = Some 5 \<and> closed_at p = Some 200)
   \<and> (\<exists>p st'. save None 50 ((Problem ''a'' ''task'')\<lparr>status := ''engaged''\<rparr>) store1 = (Inr p, st')
     \<and> started_at p = Some 50 \<and> closed_at p = None)"
proof -
  obtain p st' where s: "save (Some 7) 200 (row_engaged\<lparr>status := ''done''\<rparr>) store_engaged = (Inr p, st')"
    by (simp add: save_def objects_get_def track_fields_def getattr_def opt_val_def
          history_create_def auto_timestamp_def super_save_def column_values_def py_float_def
    num_value_def Problem_def
          row1_def store_engaged_def row_engaged_def Let_def)
  obtain q st2 where c: "save None 50 ((Problem ''a'' ''task'')\<lparr>status := ''engaged''\<rparr>) store1 = (Inr q, st2)"
    by (simp add: save_def auto_timestamp_def super_save_def next_pk_def Problem_def
          row1_def store1_def Let_def)
  from auto_timestamp_rule [OF s] s
  have a: "\<exists>p st'. save (Some 7) 200 (row_engaged\<lparr>status := ''done''\<rparr>) store_engaged = (Inr p, st')
     \<and> started_at p = Some 5 \<and> closed_at p = Some 200"
    by (simp add: row_engaged_def row1_def Problem_def)
  from auto_timestamp_rule [OF c] c
  have b: "\<exists>p st'. save None 50 ((Problem ''a'' ''task'')\<lparr>status := ''engaged''\<rparr>) store1 = (Inr p, st')
     \<and> started_at p = Some 50 \<and> closed_at p = None"
    by (simp add: Problem_def)
  from a b show ?thesis by simp
qed

text \<open>
  C4. Claim: once \<open>started_at\<close> (or \<open>closed_at\<close>) is non-null in the stored row, no later
  update changes it. Counterexample: the stored row has \<open>started_at = 5\<close>; an update whose
  instance carries \<open>started_at = None\<close> and status \<open>new\<close> stores \<open>None\<close> (cleared); with
  status \<open>engaged\<close> it stores the clock reading 100 (moved); an update whose instance
  carries \<open>started_at = 9\<close> stores 9 (moved). \<open>save\<close> has no guard on the two fields.
\<close>

theorem started_at_overwritten_by_caller:
  "map_option started_at (map_of (rows store_engaged) 1) = Some (Some 5)
   \<and> map_option started_at
       (map_of (rows (snd (save None 100 (row_engaged\<lparr>status := ''new'', started_at := None\<rparr>) store_engaged))) 1)
       = Some None
   \<and> map_option started_at
       (map_of (rows (snd (save None 100 (row_engaged\<lparr>started_at := None\<rparr>) store_engaged))) 1)
       = Some (Some 100)
   \<and> map_option started_at
       (map_of (rows (snd (save None 100 (row_engaged\<lparr>started_at := Some 9\<rparr>) store_engaged))) 1)
       = Some (Some 9)"
  by (simp add: save_def objects_get_def track_fields_def getattr_def opt_val_def
  history_create_def auto_timestamp_def super_save_def column_values_def py_float_def
    num_value_def Problem_def
  row1_def store_engaged_def row_engaged_def Let_def)

text \<open>
  C4, amended. For a stored problem and every sequence of updates of it, all of them
  succeed; and if \<open>started_at\<close> is \<open>t\<close> in the stored row and every update's instance
  carries \<open>started_at = t\<close> (the caller leaves the field as loaded), the stored
  \<open>started_at\<close> is still \<open>t\<close> after the sequence, whatever the statuses. Likewise for
  \<open>closed_at\<close>.
\<close>

theorem timestamps_kept_when_caller_keeps_them:
  assumes "map_of (rows st) k = Some row" and "k \<noteq> 0"
    and "\<forall>(user, now, self) \<in> set saves. pk self = Some k"
  shows "\<exists>st' row'. save_all saves st = Inr st' \<and> map_of (rows st') k = Some row'
          \<and> (\<forall>t. started_at row = Some t
                   \<and> (\<forall>(user, now, self) \<in> set saves. started_at self = Some t)
                 \<longrightarrow> started_at row' = Some t)
          \<and> (\<forall>t. closed_at row = Some t
                   \<and> (\<forall>(user, now, self) \<in> set saves. closed_at self = Some t)
                 \<longrightarrow> closed_at row' = Some t)"
  using assms
proof (induction saves arbitrary: st row)
  case Nil
  then show ?case by simp
next
  case (Cons a saves)
  obtain user now self where a: "a = (user, now, self)" by (cases a) auto
  from Cons.prems a have pk: "pk self = Some k" by simp
  from save_existing_row [OF pk Cons.prems(2) Cons.prems(1), of user now]
  obtain p st1 where s: "save user now self st = (Inr p, st1)"
    and r: "map_of (rows st1) k = Some (column_values p)" by blast
  from Cons.prems(3) have rest: "\<forall>(user, now, self) \<in> set saves. pk self = Some k" by simp
  from Cons.IH [OF r Cons.prems(2) rest] obtain st' row' where
    sa: "save_all saves st1 = Inr st'" and r': "map_of (rows st') k = Some row'"
    and i1: "\<forall>t. started_at (column_values p) = Some t
                   \<and> (\<forall>(user, now, self) \<in> set saves. started_at self = Some t)
                 \<longrightarrow> started_at row' = Some t"
    and i2: "\<forall>t. closed_at (column_values p) = Some t
                   \<and> (\<forall>(user, now, self) \<in> set saves. closed_at self = Some t)
                 \<longrightarrow> closed_at row' = Some t"
    by blast
  have sa': "save_all (a # saves) st = Inr st'"
    using a s sa by simp
  have p1: "\<And>t. started_at self = Some t \<Longrightarrow> started_at p = Some t"
    using save_result [OF s] by simp
  have p2: "\<And>t. closed_at self = Some t \<Longrightarrow> closed_at p = Some t"
    using save_result [OF s] by simp
  have c1: "\<forall>t. started_at row = Some t
                   \<and> (\<forall>(user, now, self) \<in> set (a # saves). started_at self = Some t)
                 \<longrightarrow> started_at row' = Some t"
    using i1 p1 a by auto
  have c2: "\<forall>t. closed_at row = Some t
                   \<and> (\<forall>(user, now, self) \<in> set (a # saves). closed_at self = Some t)
                 \<longrightarrow> closed_at row' = Some t"
    using i2 p2 a by auto
  from sa' r' c1 c2 show ?case by blast
qed

text \<open>
  Witness for C4 as amended: the engaged problem is closed and then set to \<open>blocked\<close>;
  \<open>started_at\<close> stays 5.
\<close>

theorem timestamps_kept_when_caller_keeps_them_witness:
  "\<exists>st' row'.
      save_all [(Some 7, 100, row_engaged\<lparr>status := ''done''\<rparr>),
                (None, 200, row_engaged\<lparr>status := ''blocked'', closed_at := Some 100\<rparr>)]
        store_engaged = Inr st'
    \<and> map_of (rows st') 1 = Some row' \<and> started_at row' = Some 5"
proof -
  let ?saves = "[(Some 7, 100, row_engaged\<lparr>status := ''done''\<rparr>),
                 (None, 200, row_engaged\<lparr>status := ''blocked'', closed_at := Some 100\<rparr>)]"
  have a: "map_of (rows store_engaged) 1 = Some row_engaged" by (simp add: store_engaged_def)
  have b: "(1::nat) \<noteq> 0" by simp
  have c: "\<forall>(user, now, self) \<in> set ?saves. pk self = Some 1"
    by (simp add: row_engaged_def row1_def)
  have d: "started_at row_engaged = Some 5
           \<and> (\<forall>(user, now, self) \<in> set ?saves. started_at self = Some 5)"
    by (simp add: row_engaged_def)
  from timestamps_kept_when_caller_keeps_them [OF a b c] d show ?thesis by blast
qed

text \<open>
  C5. A problem is in the result of \<open>overdue\<close> at clock reading \<open>now\<close> if and only if it
  is in the query set, \<open>etd\<close> and \<open>started_at\<close> are present, the status is \<open>new\<close>,
  \<open>engaged\<close> or \<open>blocked\<close>, and \<open>started_at + etd < now\<close>. A problem whose \<open>started_at\<close>
  is null is never in the result.
\<close>

theorem overdue_iff:
  "(p \<in> set (overdue now qs) \<longleftrightarrow>
      p \<in> set qs \<and> (\<exists>d s. etd p = Some d \<and> started_at p = Some s
         \<and> (status p = ''new'' \<or> status p = ''engaged'' \<or> status p = ''blocked'')
         \<and> s + d < now))
   \<and> (started_at p = None \<longrightarrow> p \<notin> set (overdue now qs))"
  by (auto simp: overdue_def deadline_def split: option.splits)

text \<open>
  Witness for C5: with \<open>etd = 20\<close> and the clock at 100, the problem started at 5 is
  overdue and the problem never started is not.
\<close>

theorem overdue_iff_witness:
  "row_engaged\<lparr>etd := Some 20\<rparr> \<in> set (overdue 100 [row1\<lparr>etd := Some 20\<rparr>, row_engaged\<lparr>etd := Some 20\<rparr>])
   \<and> row1\<lparr>etd := Some 20\<rparr> \<notin> set (overdue 100 [row1\<lparr>etd := Some 20\<rparr>, row_engaged\<lparr>etd := Some 20\<rparr>])"
proof -
  have n: "started_at (row1\<lparr>etd := Some 20\<rparr>) = None"
    by (simp add: row1_def Problem_def)
  from overdue_iff [of "row1\<lparr>etd := Some 20\<rparr>" 100 "[row1\<lparr>etd := Some 20\<rparr>, row_engaged\<lparr>etd := Some 20\<rparr>]"] n
  have b: "row1\<lparr>etd := Some 20\<rparr> \<notin> set (overdue 100 [row1\<lparr>etd := Some 20\<rparr>, row_engaged\<lparr>etd := Some 20\<rparr>])"
    by blast
  from overdue_iff [of "row_engaged\<lparr>etd := Some 20\<rparr>" 100 "[row1\<lparr>etd := Some 20\<rparr>, row_engaged\<lparr>etd := Some 20\<rparr>]"]
  have a: "row_engaged\<lparr>etd := Some 20\<rparr> \<in> set (overdue 100 [row1\<lparr>etd := Some 20\<rparr>, row_engaged\<lparr>etd := Some 20\<rparr>])"
    by (simp add: row_engaged_def row1_def Problem_def)
  from a b show ?thesis by simp
qed

text \<open>
  C6. Claim: \<open>expected_end\<close> is \<open>created_at + etd\<close> whenever both are present.
  The code tests \<open>self.etd\<close> for truthiness, and a zero \<open>timedelta\<close> is falsy: for the
  problem created at 10 with \<open>etd\<close> of zero duration, both are present and
  \<open>expected_end\<close> is \<open>None\<close>, not 10.
\<close>

theorem expected_end_zero_etd:
  "expected_end (row1\<lparr>etd := Some 0\<rparr>) = None
   \<and> created_at (row1\<lparr>etd := Some 0\<rparr>) = Some 10 \<and> etd (row1\<lparr>etd := Some 0\<rparr>) = Some 0"
  by (simp add: expected_end_def timedelta_bool_def row1_def Problem_def)




text \<open>
  C8. An update (key set and not 0) whose key has no stored row fails with
  \<open>DoesNotExist\<close> and leaves the store, the history table included, exactly as it
  was.
\<close>

theorem update_missing_snapshot_fails:
  assumes "pk self = Some k" and "k \<noteq> 0" and "map_of (rows st) k = None"
  shows "save user now self st = (Inl DoesNotExist, st)"
  using assms by (simp add: save_def objects_get_def)

text \<open>
  Witness for C8: key 2 is not in the store that holds only key 1.
\<close>

theorem update_missing_snapshot_fails_witness:
  "save (Some 7) 100 (row1\<lparr>pk := Some 2, status := ''engaged''\<rparr>) store1 = (Inl DoesNotExist, store1)"
proof -
  have a: "pk (row1\<lparr>pk := Some 2, status := ''engaged''\<rparr>) = Some 2" by simp
  have b: "(2::nat) \<noteq> 0" by simp
  have c: "map_of (rows store1) 2 = None" by (simp add: store1_def)
  from update_missing_snapshot_fails [OF a b c] show ?thesis .
qed

text \<open>
  C9. A successful \<open>save\<close> with no actor (create or update) returns an instance, and
  stores a row (the column values of that instance), whose \<open>created_by\<close> and
  \<open>updated_by\<close> are those of the instance handed in; in particular
  null stamps stay null and a stamp already there is kept.
\<close>

theorem save_without_actor_keeps_stamps:
  assumes "save None now self st = (Inr p, st')"
  shows "created_by p = created_by self \<and> updated_by p = updated_by self
       \<and> (\<exists>k. pk p = Some k \<and> map_of (rows st') k = Some (column_values p))
       \<and> created_by (column_values p) = created_by self
       \<and> updated_by (column_values p) = updated_by self"
  using save_result [OF assms] by simp

text \<open>
  Witness for C9: an update with no actor of a problem stamped \<open>updated_by = 3\<close>.
\<close>

theorem save_without_actor_keeps_stamps_witness:
  "\<exists>p st'. save None 100 (row1\<lparr>updated_by := Some 3, title := ''u''\<rparr>) store1 = (Inr p, st')
     \<and> created_by p = None \<and> updated_by p = Some 3"
proof -
  obtain p st' where s: "save None 100 (row1\<lparr>updated_by := Some 3, title := ''u''\<rparr>) store1 = (Inr p, st')"
    by (simp add: save_def objects_get_def track_fields_def getattr_def opt_val_def
          history_create_def auto_timestamp_def super_save_def column_values_def py_float_def
    num_value_def Problem_def
          row1_def store1_def Let_def)
  from save_without_actor_keeps_stamps [OF s] s show ?thesis
    by (simp add: row1_def Problem_def)
qed

text \<open>
  C10. A problem is in the result of the \<open>active\<close> filter if and only if it is in the
  query set and its \<open>active_state\<close> is \<open>active\<close>; \<open>active_state\<close> is \<open>new\<close> exactly for
  status \<open>new\<close>; and every status other than \<open>new\<close>, \<open>engaged\<close> and \<open>blocked\<close>, any
  string at all, is classified \<open>inactive\<close>.
\<close>

theorem active_filter_matches_active_state:
  "(p \<in> set (active qs) \<longleftrightarrow> p \<in> set qs \<and> active_state p = ''active'')
   \<and> (active_state p = ''new'' \<longleftrightarrow> status p = ''new'')
   \<and> (status p \<noteq> ''new'' \<and> status p \<noteq> ''engaged'' \<and> status p \<noteq> ''blocked''
        \<longrightarrow> active_state p = ''inactive'')"
  by (auto simp: active_def active_state_def)

text \<open>
  Witness for C10: the status \<open>archived\<close>, outside the five choices, is \<open>inactive\<close> and
  filtered out; the engaged problem is \<open>active\<close> and kept.
\<close>

theorem active_filter_matches_active_state_witness:
  "active_state (row1\<lparr>status := ''archived''\<rparr>) = ''inactive''
   \<and> active_state row_engaged = ''active''
   \<and> active [row1\<lparr>status := ''archived''\<rparr>, row_engaged] = [row_engaged]"
proof -
  have a: "status (row1\<lparr>status := ''archived''\<rparr>) \<noteq> ''new''
           \<and> status (row1\<lparr>status := ''archived''\<rparr>) \<noteq> ''engaged''
           \<and> status (row1\<lparr>status := ''archived''\<rparr>) \<noteq> ''blocked''"
    by simp
  from active_filter_matches_active_state [of "row1\<lparr>status := ''archived''\<rparr>" "[]"] a
  have i: "active_state (row1\<lparr>status := ''archived''\<rparr>) = ''inactive''" by blast
  have e: "row_engaged \<in> set (active [row_engaged])"
    by (simp add: active_def row_engaged_def)
  with active_filter_matches_active_state [of row_engaged "[row_engaged]"]
  have j: "active_state row_engaged = ''active''" by blast
  have "active [row1\<lparr>status := ''archived''\<rparr>, row_engaged] = [row_engaged]"
    by (simp add: active_def row_engaged_def)
  with i j show ?thesis by simp
qed

end
